theory Spec2Isabelle
  imports Complex_Main "HOL-Library.AList"
begin

section \<open>JavaScript strings and arrays\<close>

text \<open>
  A JavaScript string is a sequence of code units; it is modelled here as a HOL
  \<open>string\<close>, so the model covers the code units 0 to 255 (ASCII and Latin-1).
  \<open>length\<close> counts code units, as \<open>String.prototype.length\<close> does.
  JavaScript numbers are modelled as exact reals (string lengths and matrix cells as
  naturals): rounding of IEEE doubles is not part of the model.
\<close>

definition lowerChar :: "char \<Rightarrow> char" where
  "lowerChar c =
     (let n = (of_char c :: nat)
      in if (65 \<le> n \<and> n \<le> 90) \<or> (192 \<le> n \<and> n \<le> 222 \<and> n \<noteq> 215)
         then char_of (n + 32) else c)"

definition toLowerCase :: "string \<Rightarrow> string" where
  "toLowerCase s = map lowerChar s"

text \<open>The characters matched by \<open>\s\<close> and stripped by \<open>trim\<close> (among the first 256).\<close>

definition isWhiteSpace :: "char \<Rightarrow> bool" where
  "isWhiteSpace c = ((of_char c :: nat) \<in> {9, 10, 11, 12, 13, 32, 160})"

definition trim :: "string \<Rightarrow> string" where
  "trim s = rev (dropWhile isWhiteSpace (rev (dropWhile isWhiteSpace s)))"

fun startsWith :: "string \<Rightarrow> string \<Rightarrow> bool" where
  "startsWith s [] = True"
| "startsWith [] (c # cs) = False"
| "startsWith (x # xs) (c # cs) = (x = c \<and> startsWith xs cs)"

text \<open>\<open>text.includes(sub)\<close>: \<open>sub\<close> occurs in \<open>text\<close> as a contiguous substring.\<close>

fun includes_str :: "string \<Rightarrow> string \<Rightarrow> bool" where
  "includes_str [] sub = (sub = [])"
| "includes_str (x # xs) sub = (startsWith (x # xs) sub \<or> includes_str xs sub)"

text \<open>\<open>s.split(/\s+/)\<close>: the pieces between maximal runs of white space; a leading
  or trailing run leaves an empty piece, and the empty string splits into one empty
  piece.\<close>

function splitWs :: "string \<Rightarrow> string list" where
  "splitWs [] = [[]]"
| "splitWs (c # cs) =
     (if isWhiteSpace c then [] # splitWs (dropWhile isWhiteSpace cs)
      else (case splitWs cs of [] \<Rightarrow> [[c]] | w # ws \<Rightarrow> (c # w) # ws))"
  by pat_completeness auto
termination
  by (relation "measure length") (auto simp: length_dropWhile_le less_Suc_eq_le)

text \<open>\<open>s.replace(a, b)\<close> with string arguments of one character: only the first
  occurrence is replaced.\<close>

fun replaceFirst :: "char \<Rightarrow> char \<Rightarrow> string \<Rightarrow> string" where
  "replaceFirst a b [] = []"
| "replaceFirst a b (c # cs) = (if c = a then b # cs else c # replaceFirst a b cs)"

text \<open>\<open>parts.join(sep)\<close> on an array of strings.\<close>

fun join :: "string \<Rightarrow> string list \<Rightarrow> string" where
  "join sep [] = []"
| "join sep [x] = x"
| "join sep (x # y # ys) = x @ sep @ join sep (y # ys)"

text \<open>\<open>arr[i] = v\<close> on a JavaScript array: inside the array the element is replaced,
  at \<open>i = arr.length\<close> the array grows by one element. Beyond that JavaScript
  leaves holes, filled here with \<open>hole\<close>; the code below never writes there.\<close>

definition assign :: "'a \<Rightarrow> 'a list \<Rightarrow> nat \<Rightarrow> 'a \<Rightarrow> 'a list" where
  "assign hole arr i v =
     (if i < length arr then arr[i := v]
      else arr @ replicate (i - length arr) hole @ [v])"

section \<open>Levenshtein distance and string similarity\<close>

text \<open>
  \<open>levenshteinDistance(str1, str2)\<close> fills a matrix with one row per prefix of
  \<open>str2\<close> and one column per prefix of \<open>str1\<close>. The three loops of the source are
  folds over their index ranges.
\<close>

type_synonym matrix = "nat list list"

definition initRows :: "nat \<Rightarrow> matrix" where
  "initRows n2 = fold (\<lambda>i matrix. assign [] matrix i [i]) [0..<Suc n2] []"

definition initFirstRow :: "nat \<Rightarrow> matrix \<Rightarrow> matrix" where
  "initFirstRow n1 matrix0 =
     fold (\<lambda>j matrix. matrix[0 := assign 0 (matrix ! 0) j j]) [0..<Suc n1] matrix0"

definition cell :: "string \<Rightarrow> string \<Rightarrow> matrix \<Rightarrow> nat \<Rightarrow> nat \<Rightarrow> nat" where
  "cell str1 str2 matrix i j =
     (if str2 ! (i - 1) = str1 ! (j - 1) then matrix ! (i - 1) ! (j - 1)
      else min (matrix ! (i - 1) ! (j - 1) + 1)
               (min (matrix ! i ! (j - 1) + 1) (matrix ! (i - 1) ! j + 1)))"

definition fillRow :: "string \<Rightarrow> string \<Rightarrow> nat \<Rightarrow> matrix \<Rightarrow> matrix" where
  "fillRow str1 str2 i matrix0 =
     fold (\<lambda>j matrix. matrix[i := assign 0 (matrix ! i) j (cell str1 str2 matrix i j)])
       [1..<Suc (length str1)] matrix0"

definition fillMatrix :: "string \<Rightarrow> string \<Rightarrow> matrix \<Rightarrow> matrix" where
  "fillMatrix str1 str2 matrix0 =
     fold (\<lambda>i matrix. fillRow str1 str2 i matrix) [1..<Suc (length str2)] matrix0"

definition levenshteinDistance :: "string \<Rightarrow> string \<Rightarrow> nat" where
  "levenshteinDistance str1 str2 =
     (let matrix = initRows (length str2);
          matrix = initFirstRow (length str1) matrix;
          matrix = fillMatrix str1 str2 matrix
      in matrix ! length str2 ! length str1)"

definition stringSimilarity :: "string \<Rightarrow> string \<Rightarrow> real" where
  "stringSimilarity str1 str2 =
     (let longer = (if length str1 > length str2 then str1 else str2);
          shorter = (if length str1 > length str2 then str2 else str1)
      in if length longer = 0 then 1
         else let distance = levenshteinDistance longer shorter
              in (real (length longer) - real distance) / real (length longer))"

text \<open>
  \<open>fuzzyMatch(text, keywords)\<close>: the \<open>forEach\<close> is a fold over the keywords with
  the running total \<open>matches\<close>.
\<close>

definition fuzzyMatch :: "string \<Rightarrow> string list \<Rightarrow> real" where
  "fuzzyMatch text keywords =
     (if text = [] \<or> length keywords = 0 then 0
      else let matches =
             fold (\<lambda>keyword matches.
                     if includes_str text keyword then matches + 1
                     else let similarity = stringSimilarity text keyword
                          in if similarity > 0.7 then matches + similarity else matches)
               keywords 0
           in min (matches / real (length keywords)) 1)"

section \<open>Profiles\<close>

text \<open>
  A profile is an object with optional groups, each with optional fields: a field
  that is absent reads as \<open>undefined\<close>, modelled as \<open>None\<close>. Only the fields the
  scorer reads are kept, and each has the type of the data set (strings and arrays
  of strings).
\<close>

record location_rec =
  city :: "string option"
  country :: "string option"

record personal_rec =
  name :: "string option"
  location :: "location_rec option"

record professional_rec =
  current_role :: "string option"
  company :: "string option"
  industry :: "string option"
  expertise_tags :: "string list option"

record networking_rec =
  goals :: "string list option"
  offering :: "string list option"

record alumni =
  alumni_id :: string
  personal :: "personal_rec option"
  professional :: "professional_rec option"
  networking :: "networking_rec option"

text \<open>A search result: the profile's own fields (the spread \<open>...alumni\<close>) extended
  with \<open>searchRelevance\<close> and \<open>searchQuery\<close>.\<close>

record scored = alumni +
  searchRelevance :: real
  searchQuery :: string

definition withRelevance :: "alumni \<Rightarrow> real \<Rightarrow> string \<Rightarrow> scored" where
  "withRelevance a relevanceScore query =
     alumni.extend a (scored.fields relevanceScore query)"

text \<open>A template literal \<open>${v}\<close> prints an absent value as the text \<open>undefined\<close>.\<close>

definition template :: "string option \<Rightarrow> string" where
  "template v = (case v of None \<Rightarrow> ''undefined'' | Some s \<Rightarrow> s)"

text \<open>The test \<open>if (v)\<close> on a string field: absent and the empty string are falsy.\<close>

definition truthy :: "string option \<Rightarrow> bool" where
  "truthy v = (case v of None \<Rightarrow> False | Some s \<Rightarrow> s \<noteq> [])"

text \<open>\<open>alumni.personal || {}\<close> and its two siblings.\<close>

definition personalOrEmpty :: "personal_rec option \<Rightarrow> personal_rec" where
  "personalOrEmpty g = (case g of None \<Rightarrow> \<lparr>name = None, location = None\<rparr> | Some p \<Rightarrow> p)"

definition professionalOrEmpty :: "professional_rec option \<Rightarrow> professional_rec" where
  "professionalOrEmpty g =
     (case g of
        None \<Rightarrow> \<lparr>current_role = None, company = None, industry = None, expertise_tags = None\<rparr>
      | Some p \<Rightarrow> p)"

definition networkingOrEmpty :: "networking_rec option \<Rightarrow> networking_rec" where
  "networkingOrEmpty g = (case g of None \<Rightarrow> \<lparr>goals = None, offering = None\<rparr> | Some n \<Rightarrow> n)"

text \<open>\<open>arr || []\<close>.\<close>

definition orEmptyArray :: "string list option \<Rightarrow> string list" where
  "orEmptyArray v = (case v of None \<Rightarrow> [] | Some xs \<Rightarrow> xs)"

section \<open>Search terms\<close>

record searchTerms =
  keywordList :: "string list"
  industries :: "string list"
  roles :: "string list"
  locations :: "string list"
  goalPhrases :: "string list"
  experience :: "string list"
  matchedIndustries :: "string list"
  matchedRoles :: "string list"
  matchedLocations :: "string list"
  matchedGoals :: "string list"
  matchedExperience :: "string list"

text \<open>The field \<open>goals\<close> of the source's \<open>terms\<close> object is \<open>goalPhrases\<close> here: the
  name \<open>goals\<close> is the field of the networking group; its field \<open>keywords\<close> is
  \<open>keywordList\<close>.\<close>

definition extractSearchTerms :: "string \<Rightarrow> searchTerms" where
  "extractSearchTerms query =
     (let industries0 = [''technology'', ''finance'', ''healthcare'', ''education'',
                         ''consulting'', ''marketing'', ''real-estate'', ''nonprofit''];
          roles0 = [''founder'', ''ceo'', ''manager'', ''director'', ''engineer'',
                    ''consultant'', ''analyst'', ''designer''];
          locations0 = [''san francisco'', ''new york'', ''london'', ''toronto'',
                        ''singapore'', ''tokyo''];
          goals0 = [''mentorship'', ''partnerships'', ''job opportunities'', ''advice'',
                    ''connections''];
          experience0 = [''junior'', ''mid'', ''senior'', ''entry level'', ''experienced''];
          normalizedQuery = toLowerCase query
      in \<lparr>keywordList = filter (\<lambda>word. length word > 2) (splitWs normalizedQuery),
          industries = industries0,
          roles = roles0,
          locations = locations0,
          goalPhrases = goals0,
          experience = experience0,
          matchedIndustries =
            filter (\<lambda>industry. includes_str normalizedQuery industry
                      \<or> includes_str normalizedQuery (replaceFirst CHR ''-'' CHR '' '' industry))
              industries0,
          matchedRoles = filter (\<lambda>role. includes_str normalizedQuery role) roles0,
          matchedLocations = filter (\<lambda>location. includes_str normalizedQuery location) locations0,
          matchedGoals = filter (\<lambda>goal. includes_str normalizedQuery goal) goals0,
          matchedExperience = filter (\<lambda>exp. includes_str normalizedQuery exp) experience0\<rparr>)"

section \<open>Relevance score\<close>

definition weights_name :: real where "weights_name = 0.3"
definition weights_role :: real where "weights_role = 0.25"
definition weights_company :: real where "weights_company = 0.2"
definition weights_industry :: real where "weights_industry = 0.15"
definition weights_expertise :: real where "weights_expertise = 0.2"
definition weights_location :: real where "weights_location = 0.1"
definition weights_networking :: real where "weights_networking = 0.15"
definition weights_exact :: real where "weights_exact = 0.5"

text \<open>
  \<open>calculateRelevanceScore\<close> updates the variable \<open>score\<close> in eight blocks, one per
  comment of the source; each block is a function from the score before it to the
  score after it.
\<close>

definition exactMatching ::
  "personal_rec \<Rightarrow> professional_rec \<Rightarrow> string \<Rightarrow> real \<Rightarrow> real" where
  "exactMatching personal' professional' originalQuery score =
     (let fullText = toLowerCase
            (template (name personal') @ '' '' @ template (current_role professional') @ '' ''
             @ template (company professional') @ '' '' @ template (industry professional') @ '' ''
             @ template (case location personal' of None \<Rightarrow> None | Some l \<Rightarrow> city l))
      in if includes_str fullText (toLowerCase originalQuery) then score + weights_exact
         else score)"

definition nameMatching :: "personal_rec \<Rightarrow> searchTerms \<Rightarrow> real \<Rightarrow> real" where
  "nameMatching personal' searchTerms score =
     (if truthy (name personal')
      then let nameMatch = fuzzyMatch (toLowerCase (the (name personal'))) (keywordList searchTerms)
           in score + nameMatch * weights_name
      else score)"

definition roleMatching :: "professional_rec \<Rightarrow> searchTerms \<Rightarrow> real \<Rightarrow> real" where
  "roleMatching professional' searchTerms score =
     (if truthy (current_role professional')
      then let roleMatch = fuzzyMatch (toLowerCase (the (current_role professional')))
                             (keywordList searchTerms);
               score = score + roleMatch * weights_role
           in if list_ex (\<lambda>role. includes_str (toLowerCase (the (current_role professional'))) role)
                   (matchedRoles searchTerms)
              then score + weights_role * 0.5
              else score
      else score)"

definition companyMatching :: "professional_rec \<Rightarrow> searchTerms \<Rightarrow> real \<Rightarrow> real" where
  "companyMatching professional' searchTerms score =
     (if truthy (company professional')
      then let companyMatch = fuzzyMatch (toLowerCase (the (company professional')))
                                (keywordList searchTerms)
           in score + companyMatch * weights_company
      else score)"

definition industryMatching :: "professional_rec \<Rightarrow> searchTerms \<Rightarrow> real \<Rightarrow> real" where
  "industryMatching professional' searchTerms score =
     (if truthy (industry professional')
      then if the (industry professional') \<in> set (matchedIndustries searchTerms)
           then score + weights_industry else score
      else score)"

definition expertiseMatching :: "professional_rec \<Rightarrow> searchTerms \<Rightarrow> real \<Rightarrow> real" where
  "expertiseMatching professional' searchTerms score =
     (case expertise_tags professional' of
        None \<Rightarrow> score
      | Some tags \<Rightarrow>
          let expertiseText = toLowerCase (join '' '' tags);
              expertiseMatch = fuzzyMatch expertiseText (keywordList searchTerms)
          in score + expertiseMatch * weights_expertise)"

definition locationMatching :: "personal_rec \<Rightarrow> searchTerms \<Rightarrow> real \<Rightarrow> real" where
  "locationMatching personal' searchTerms score =
     (case location personal' of
        None \<Rightarrow> score
      | Some l \<Rightarrow>
          let locationText = toLowerCase (template (city l) @ '' '' @ template (country l))
          in if list_ex (\<lambda>loc. includes_str locationText loc) (matchedLocations searchTerms)
             then score + weights_location else score)"

definition networkingMatching :: "networking_rec \<Rightarrow> searchTerms \<Rightarrow> real \<Rightarrow> real" where
  "networkingMatching networking' searchTerms score =
     (if goals networking' \<noteq> None \<or> offering networking' \<noteq> None
      then let networkingText = toLowerCase
                 (join '' '' (orEmptyArray (goals networking') @ orEmptyArray (offering networking')))
           in if list_ex (\<lambda>goal. includes_str networkingText goal) (matchedGoals searchTerms)
              then score + weights_networking else score
      else score)"

definition calculateRelevanceScore :: "alumni \<Rightarrow> searchTerms \<Rightarrow> string \<Rightarrow> real" where
  "calculateRelevanceScore alumni searchTerms originalQuery =
     (let score = 0;
          personal' = personalOrEmpty (personal alumni);
          professional' = professionalOrEmpty (professional alumni);
          networking' = networkingOrEmpty (networking alumni);
          score = exactMatching personal' professional' originalQuery score;
          score = nameMatching personal' searchTerms score;
          score = roleMatching professional' searchTerms score;
          score = companyMatching professional' searchTerms score;
          score = industryMatching professional' searchTerms score;
          score = expertiseMatching professional' searchTerms score;
          score = locationMatching personal' searchTerms score;
          score = networkingMatching networking' searchTerms score
      in min score 1)"

section \<open>Local search\<close>

text \<open>
  \<open>results.sort((a, b) => b.searchRelevance - a.searchRelevance)\<close>:
  \<open>Array.prototype.sort\<close> is a stable sort by the comparison function, which puts
  \<open>a\<close> before \<open>b\<close> when it returns a negative number and keeps their order when it
  returns zero. It is modelled by insertion from the right, which is stable.
\<close>

definition byRelevance :: "scored \<Rightarrow> scored \<Rightarrow> real" where
  "byRelevance a b = searchRelevance b - searchRelevance a"

fun insertSorted :: "('a \<Rightarrow> 'a \<Rightarrow> real) \<Rightarrow> 'a \<Rightarrow> 'a list \<Rightarrow> 'a list" where
  "insertSorted cmp x [] = [x]"
| "insertSorted cmp x (y # ys) =
     (if cmp x y \<le> 0 then x # y # ys else y # insertSorted cmp x ys)"

definition sortWith :: "('a \<Rightarrow> 'a \<Rightarrow> real) \<Rightarrow> 'a list \<Rightarrow> 'a list" where
  "sortWith cmp xs = foldr (insertSorted cmp) xs []"

text \<open>The results before sorting: the \<open>forEach\<close> over the profiles, pushing every
  profile that scores above 0.1.\<close>

definition collectResults :: "string \<Rightarrow> searchTerms \<Rightarrow> alumni list \<Rightarrow> scored list" where
  "collectResults query searchTerms alumniData =
     fold (\<lambda>alumni results.
             let relevanceScore = calculateRelevanceScore alumni searchTerms query
             in if relevanceScore > 0.1
                then results @ [withRelevance alumni relevanceScore query]
                else results)
       alumniData []"

definition performLocalSearch :: "string \<Rightarrow> alumni list \<Rightarrow> scored list" where
  "performLocalSearch query alumniData =
     (let searchTerms = extractSearchTerms query;
          results = collectResults query searchTerms alumniData
      in sortWith byRelevance results)"

section \<open>The search manager and its cache\<close>

text \<open>
  \<open>searchCache\<close> is a JavaScript \<open>Map\<close>: its keys are distinct and are iterated in
  the order of their first insertion. It is modelled as an association list in that
  order.
\<close>

type_synonym 'v js_map = "(string \<times> 'v) list"

definition map_has :: "'v js_map \<Rightarrow> string \<Rightarrow> bool" where
  "map_has m k = (map_of m k \<noteq> None)"

definition map_get :: "'v js_map \<Rightarrow> string \<Rightarrow> 'v option" where
  "map_get m k = map_of m k"

text \<open>\<open>m.set(k, v)\<close> replaces the value of a key that is present, in place, and
  appends a new key at the end.\<close>

definition map_set :: "'v js_map \<Rightarrow> string \<Rightarrow> 'v \<Rightarrow> 'v js_map" where
  "map_set m k v = AList.update k v m"

definition map_delete :: "'v js_map \<Rightarrow> string \<Rightarrow> 'v js_map" where
  "map_delete m k = AList.delete k m"

definition map_size :: "'v js_map \<Rightarrow> nat" where
  "map_size m = length m"

text \<open>What the page shows: every profile, or the list given to
  \<open>displaySearchResults\<close>.\<close>

datatype shown = AllProfiles "alumni list" | SearchResults "scored list"

record app_state =
  alumniData :: "alumni list"
  filteredData :: shown
  searchMode :: bool

text \<open>
  The fields of \<open>SearchManager\<close> that \<open>performSearch\<close> reads or writes. The entries
  of \<open>searchHistory\<close> are kept without their time stamp. The DOM, the notifications
  and the timers are not modelled.
\<close>

record searchManager =
  app :: app_state
  isSearching :: bool
  currentQuery :: string
  searchHistory :: "(string \<times> nat) list"
  openAIApiKey :: "string option"
  useAI :: bool
  searchCache :: "scored list js_map"
  maxCacheSize :: nat

text \<open>The constructor, followed by \<open>init\<close>: \<open>loadSearchHistory\<close> reads the saved
  history from local storage (a parameter here) and \<open>checkAIAvailability\<close> leaves
  \<open>useAI\<close> false.\<close>

definition newSearchManager :: "app_state \<Rightarrow> (string \<times> nat) list \<Rightarrow> searchManager" where
  "newSearchManager app0 savedHistory =
     \<lparr>app = app0, isSearching = False, currentQuery = [], searchHistory = savedHistory,
      openAIApiKey = None, useAI = False, searchCache = [], maxCacheSize = 100\<rparr>"

definition cacheSearchResults :: "string \<Rightarrow> scored list \<Rightarrow> searchManager \<Rightarrow> searchManager" where
  "cacheSearchResults query results this =
     (let this = (if map_size (searchCache this) \<ge> maxCacheSize this
                  then (case searchCache this of
                          [] \<Rightarrow> this
                        | (firstKey, _) # _ \<Rightarrow>
                            this\<lparr>searchCache := map_delete (searchCache this) firstKey\<rparr>)
                  else this)
      in this\<lparr>searchCache := map_set (searchCache this) query results\<rparr>)"

definition displaySearchResults :: "scored list \<Rightarrow> searchManager \<Rightarrow> searchManager" where
  "displaySearchResults results this =
     this\<lparr>app := (app this)\<lparr>filteredData := SearchResults results, searchMode := True\<rparr>\<rparr>"

definition clearSearch :: "searchManager \<Rightarrow> searchManager" where
  "clearSearch this =
     this\<lparr>currentQuery := [],
          app := (app this)\<lparr>searchMode := False,
                            filteredData := AllProfiles (alumniData (app this))\<rparr>\<rparr>"

definition addToSearchHistory :: "string \<Rightarrow> nat \<Rightarrow> searchManager \<Rightarrow> searchManager" where
  "addToSearchHistory query resultCount this =
     (let history = filter (\<lambda>item. fst item \<noteq> query) (searchHistory this);
          history = (query, resultCount) # history;
          history = (if length history > 20 then take 20 history else history)
      in this\<lparr>searchHistory := history\<rparr>)"

text \<open>
  \<open>performSearch(query, isLiveSearch)\<close>, run to completion. The list a search
  returns is the list it hands to \<open>displaySearchResults\<close>, which stores it in
  \<open>app.filteredData\<close>. \<open>performAISearch\<close> calls a remote service and falls back to
  the local search by itself; what it resolves to is the parameter
  \<open>performAISearch\<close>. With profiles of the record type above nothing in the
  \<open>try\<close> block throws, so the \<open>catch\<close> branch is not reached.
\<close>

definition performSearch ::
  "(string \<Rightarrow> scored list) \<Rightarrow> string \<Rightarrow> bool \<Rightarrow> searchManager \<Rightarrow> searchManager" where
  "performSearch performAISearch query isLiveSearch this =
     (if length (trim query) = 0 then clearSearch this
      else let normalizedQuery = toLowerCase (trim query)
           in if map_has (searchCache this) normalizedQuery
              then let cachedResults = the (map_get (searchCache this) normalizedQuery)
                   in displaySearchResults cachedResults this
              else let this = this\<lparr>isSearching := True\<rparr>;
                       results = (if useAI this \<and> truthy (openAIApiKey this)
                                  then performAISearch query
                                  else performLocalSearch query (alumniData (app this)));
                       this = cacheSearchResults normalizedQuery results this;
                       this = displaySearchResults results this;
                       this = (if \<not> isLiveSearch
                               then addToSearchHistory query (length results) this
                               else this)
                   in this\<lparr>isSearching := False\<rparr>)"

text \<open>A session: searches made one after the other, each with its
  \<open>isLiveSearch\<close> flag.\<close>

definition performSearches ::
  "(string \<Rightarrow> scored list) \<Rightarrow> (string \<times> bool) list \<Rightarrow> searchManager \<Rightarrow> searchManager" where
  "performSearches performAISearch calls this0 =
     fold (\<lambda>(query, isLiveSearch) this. performSearch performAISearch query isLiveSearch this)
       calls this0"

text \<open>What a search that misses the cache computes: the answer of the remote path
  when it is switched on, of the local search otherwise.\<close>

definition missResults :: "(string \<Rightarrow> scored list) \<Rightarrow> string \<Rightarrow> searchManager \<Rightarrow> scored list" where
  "missResults ai q s =
     (if useAI s \<and> truthy (openAIApiKey s) then ai q
      else performLocalSearch q (alumniData (app s)))"

text \<open>The invariant of the cache: distinct keys, at most \<open>maxCacheSize\<close> of them.\<close>

definition cacheInv :: "searchManager \<Rightarrow> bool" where
  "cacheInv s = (distinct (map fst (searchCache s))
                 \<and> length (searchCache s) \<le> maxCacheSize s \<and> 0 < maxCacheSize s)"

section \<open>Example profiles\<close>

text \<open>A profile with an identifier and none of the optional groups.\<close>

definition emptyProfile :: alumni where
  "emptyProfile = \<lparr>alumni_id = ''demo_000'', personal = None, professional = None, networking = None\<rparr>"

text \<open>A profile whose only datum is the role \<open>Founder & CEO\<close>.\<close>

definition founderRole :: professional_rec where
  "founderRole = \<lparr>current_role = Some ''Founder & CEO'', company = None, industry = None,
                   expertise_tags = None\<rparr>"

definition founderProfile :: alumni where
  "founderProfile = \<lparr>alumni_id = ''demo_founder'', personal = None,
                      professional = Some founderRole, networking = None\<rparr>"

text \<open>An application state with one profile, a remote path that finds nothing, and
  101 queries with distinct normalized forms: \<open>a\<close>, \<open>aa\<close>, and so on.\<close>

definition exampleApp :: app_state where
  "exampleApp = \<lparr>alumniData = [founderProfile], filteredData = AllProfiles [founderProfile],
                  searchMode = False\<rparr>"

definition noAISearch :: "string \<Rightarrow> scored list" where
  "noAISearch query = []"

definition manyQueries :: "(string \<times> bool) list" where
  "manyQueries = map (\<lambda>n. (replicate n CHR ''a'', False)) [1..<102]"

section \<open>Reference definitions\<close>

text \<open>The value the loops of \<open>levenshteinDistance\<close> store in \<open>matrix[i][j]\<close>, as a
  recursive function of the two indices.\<close>

fun levCell :: "string \<Rightarrow> string \<Rightarrow> nat \<Rightarrow> nat \<Rightarrow> nat" where
  "levCell str1 str2 0 j = j"
| "levCell str1 str2 (Suc i) 0 = Suc i"
| "levCell str1 str2 (Suc i) (Suc j) =
     (if str2 ! i = str1 ! j then levCell str1 str2 i j
      else min (levCell str1 str2 i j + 1)
               (min (levCell str1 str2 (Suc i) j + 1) (levCell str1 str2 i (Suc j) + 1)))"

definition levRow :: "string \<Rightarrow> string \<Rightarrow> nat \<Rightarrow> nat \<Rightarrow> nat list" where
  "levRow str1 str2 i k = map (levCell str1 str2 i) [0..<k]"

definition levRows :: "string \<Rightarrow> string \<Rightarrow> nat \<Rightarrow> matrix" where
  "levRows str1 str2 k =
     map (\<lambda>i. if i \<le> k then levRow str1 str2 i (Suc (length str1)) else [i])
       [0..<Suc (length str2)]"

text \<open>
  The Levenshtein distance as it is usually defined: \<open>editDistance a b i j\<close> is the
  distance between the first \<open>i\<close> characters of \<open>a\<close> and the first \<open>j\<close> characters
  of \<open>b\<close>, the least cost of a deletion, an insertion or a substitution (free when
  the two characters agree) after the best edit of the shorter prefixes.
\<close>

fun editDistance :: "string \<Rightarrow> string \<Rightarrow> nat \<Rightarrow> nat \<Rightarrow> nat" where
  "editDistance a b 0 j = j"
| "editDistance a b (Suc i) 0 = Suc i"
| "editDistance a b (Suc i) (Suc j) =
     min (min (editDistance a b i (Suc j) + 1) (editDistance a b (Suc i) j + 1))
         (editDistance a b i j + (if a ! i = b ! j then 0 else 1))"

definition levenshtein_spec :: "string \<Rightarrow> string \<Rightarrow> nat" where
  "levenshtein_spec a b = editDistance a b (length a) (length b)"

text \<open>The fuzzy match as the specification words it: a point per keyword found
  verbatim, else the similarity when it exceeds 0.7; the sum over the number of
  keywords, at most 1; and 0 for an empty text or no keywords.\<close>

definition similarity_spec :: "string \<Rightarrow> string \<Rightarrow> real" where
  "similarity_spec text keyword =
     1 - real (levenshtein_spec text keyword) / real (max (length text) (length keyword))"

definition points_spec :: "string \<Rightarrow> string \<Rightarrow> real" where
  "points_spec text keyword =
     (if includes_str text keyword then 1
      else if similarity_spec text keyword > 0.7 then similarity_spec text keyword
      else 0)"

definition fuzzyMatch_spec :: "string \<Rightarrow> string list \<Rightarrow> real" where
  "fuzzyMatch_spec text keywords =
     (if keywords = [] \<or> text = [] then 0
      else min ((\<Sum>keyword\<leftarrow>keywords. points_spec text keyword) / real (length keywords)) 1)"

text \<open>The points one keyword adds to \<open>matches\<close> in \<open>fuzzyMatch\<close>.\<close>

definition points :: "string \<Rightarrow> string \<Rightarrow> real" where
  "points text keyword =
     (if includes_str text keyword then 1
      else if stringSimilarity text keyword > 0.7 then stringSimilarity text keyword else 0)"

section \<open>The matrix of \<open>levenshteinDistance\<close>\<close>

lemma assign_end: "assign h arr (length arr) v = arr @ [v]"
  by (simp add: assign_def)

lemma initRows_fold:
  "fold (\<lambda>i matrix. assign [] matrix i [i]) [0..<k] [] = map (\<lambda>i. [i]) [0..<k]"
  by (induction k) (simp_all add: assign_def)

lemma initRows_eq: "initRows n2 = map (\<lambda>i. [i]) [0..<Suc n2]"
  unfolding initRows_def by (rule initRows_fold)

lemma initFirstRow_fold:
  assumes "m \<noteq> []" "m ! 0 = [0]"
  shows "fold (\<lambda>j matrix. matrix[0 := assign 0 (matrix ! 0) j j]) [0..<Suc k] m
         = m[0 := [0..<Suc k]]"
proof (induction k)
  case 0
  from assms show ?case by (simp add: assign_def list_update_same_conv)
next
  case (Suc k)
  have "fold (\<lambda>j matrix. matrix[0 := assign 0 (matrix ! 0) j j]) [0..<Suc (Suc k)] m
        = (m[0 := [0..<Suc k]])[0 := assign 0 ((m[0 := [0..<Suc k]]) ! 0) (Suc k) (Suc k)]"
    using Suc.IH by simp
  also have "(m[0 := [0..<Suc k]]) ! 0 = [0..<Suc k]"
    using assms(1) by (cases m) simp_all
  also have "assign 0 [0..<Suc k] (Suc k) (Suc k) = [0..<Suc (Suc k)]"
    using assign_end [of 0 "[0..<Suc k]" "Suc k"] by simp
  finally show ?case by simp
qed

lemma levRow_0: "levRow str1 str2 0 k = [0..<k]"
  by (simp add: levRow_def map_idI)

lemma init_eq: "initFirstRow (length str1) (initRows (length str2)) = levRows str1 str2 0"
proof -
  let ?m = "map (\<lambda>i. [i]) [0..<Suc (length str2)]"
  have ne: "?m \<noteq> []" by simp
  have z: "?m ! 0 = [0]" by (simp add: nth_Cons' upt_rec [of 0])
  have "initFirstRow (length str1) (initRows (length str2)) = ?m[0 := [0..<Suc (length str1)]]"
    unfolding initFirstRow_def initRows_eq by (rule initFirstRow_fold [OF ne z])
  also have "\<dots> = levRows str1 str2 0"
    by (rule nth_equalityI) (auto simp: levRows_def levRow_0 nth_list_update simp del: upt_Suc)
  finally show ?thesis .
qed

lemma fillRow_fold:
  assumes "Suc i < length m" "m ! i = levRow str1 str2 i (Suc (length str1))"
    and "m ! Suc i = [Suc i]" "k \<le> length str1"
  shows "fold (\<lambda>j matrix. matrix[Suc i := assign 0 (matrix ! Suc i) j (cell str1 str2 matrix (Suc i) j)])
           [1..<Suc k] m
         = m[Suc i := levRow str1 str2 (Suc i) (Suc k)]"
  using assms(4)
proof (induction k)
  case 0
  from assms(3) list_update_id [of m "Suc i"] show ?case by (simp add: levRow_def)
next
  case (Suc k)
  let ?m' = "m[Suc i := levRow str1 str2 (Suc i) (Suc k)]"
  from Suc have IH: "fold (\<lambda>j matrix. matrix[Suc i := assign 0 (matrix ! Suc i) j (cell str1 str2 matrix (Suc i) j)])
           [1..<Suc k] m = ?m'" and k: "Suc k \<le> length str1" by simp_all
  have r: "?m' ! Suc i = levRow str1 str2 (Suc i) (Suc k)" using assms(1) by simp
  have p: "?m' ! i = levRow str1 str2 i (Suc (length str1))" using assms(2) by simp
  have c: "cell str1 str2 ?m' (Suc i) (Suc k) = levCell str1 str2 (Suc i) (Suc k)"
    using k assms(1,2) by (simp add: cell_def levRow_def del: upt_Suc)
  have "assign 0 (?m' ! Suc i) (Suc k) (cell str1 str2 ?m' (Suc i) (Suc k))
        = levRow str1 str2 (Suc i) (Suc (Suc k))"
    unfolding r c using assign_end [of 0 "levRow str1 str2 (Suc i) (Suc k)"]
    by (simp add: levRow_def)
  then show ?case using IH by simp
qed

lemma fillRow_eq:
  assumes "Suc i \<le> length str2"
  shows "fillRow str1 str2 (Suc i) (levRows str1 str2 i) = levRows str1 str2 (Suc i)"
proof -
  let ?m = "levRows str1 str2 i"
  have 1: "Suc i < length ?m" using assms by (simp add: levRows_def)
  have 2: "?m ! i = levRow str1 str2 i (Suc (length str1))"
    using assms by (simp add: levRows_def nth_append del: upt_Suc)
  have 3: "?m ! Suc i = [Suc i]"
    using assms by (simp add: levRows_def del: upt_Suc)
  have "fillRow str1 str2 (Suc i) ?m = ?m[Suc i := levRow str1 str2 (Suc i) (Suc (length str1))]"
    unfolding fillRow_def by (rule fillRow_fold [OF 1 2 3 order_refl])
  also have "\<dots> = levRows str1 str2 (Suc i)"
    using assms
    by (intro nth_equalityI) (auto simp: levRows_def nth_list_update simp del: upt_Suc)
  finally show ?thesis .
qed

lemma fillMatrix_fold:
  "k \<le> length str2 \<Longrightarrow>
   fold (\<lambda>i matrix. fillRow str1 str2 i matrix) [1..<Suc k] (levRows str1 str2 0)
   = levRows str1 str2 k"
proof (induction k)
  case 0
  show ?case by simp
next
  case (Suc k)
  then show ?case using fillRow_eq [of k str2 str1] by simp
qed

lemma levenshteinDistance_levCell:
  "levenshteinDistance str1 str2 = levCell str1 str2 (length str2) (length str1)"
proof -
  have "fillMatrix str1 str2 (initFirstRow (length str1) (initRows (length str2)))
        = levRows str1 str2 (length str2)"
    unfolding init_eq fillMatrix_def by (rule fillMatrix_fold) simp
  then show ?thesis
    by (simp add: levenshteinDistance_def Let_def levRows_def levRow_def nth_append del: upt_Suc)
qed

lemma levCell_0_right [simp]: "levCell str1 str2 i 0 = i"
  by (cases i) simp_all

lemma levCell_sym: "levCell str1 str2 i j = levCell str2 str1 j i"
  by (induction str1 str2 i j rule: levCell.induct) (auto simp: min.commute min.left_commute)

lemma levCell_upper: "levCell str1 str2 i j \<le> max i j"
  by (induction str1 str2 i j rule: levCell.induct) auto

lemma levCell_lower: "i - j \<le> levCell str1 str2 i j \<and> j - i \<le> levCell str1 str2 i j"
  by (induction str1 str2 i j rule: levCell.induct) auto

section \<open>Properties of the distance and of the similarity\<close>

lemma levenshteinDistance_upper: "levenshteinDistance a b \<le> max (length a) (length b)"
  using levCell_upper [of a b "length b" "length a"]
  by (simp add: levenshteinDistance_levCell max.commute)

lemma levenshteinDistance_lower:
  "length a - length b \<le> levenshteinDistance a b \<and> length b - length a \<le> levenshteinDistance a b"
  using levCell_lower [of "length b" "length a" a b]
  by (simp add: levenshteinDistance_levCell)

lemma stringSimilarity_bounds: "0 \<le> stringSimilarity str1 str2 \<and> stringSimilarity str1 str2 \<le> 1"
proof (cases "length str1 > length str2")
  case True
  have "levenshteinDistance str1 str2 \<le> length str1"
    using levenshteinDistance_upper [of str1 str2] True by simp
  with True show ?thesis
    by (simp add: stringSimilarity_def Let_def divide_le_eq_1)
next
  case False
  have "levenshteinDistance str2 str1 \<le> length str2"
    using levenshteinDistance_upper [of str2 str1] False by simp
  with False show ?thesis
    by (simp add: stringSimilarity_def Let_def divide_le_eq_1)
qed

text \<open>The matrix recurrence of the source computes the Levenshtein distance of the
  reference definition.\<close>

lemma editDistance_0_right [simp]: "editDistance a b i 0 = i"
  by (cases i) simp_all

lemma editDistance_step_i: "editDistance a b (Suc i) j \<le> Suc (editDistance a b i j)"
  by (cases j) simp_all

lemma editDistance_step_j: "editDistance a b i (Suc j) \<le> Suc (editDistance a b i j)"
  by (cases i) simp_all

lemma editDistance_lip_j: "editDistance a b i j \<le> Suc (editDistance a b i (Suc j))"
proof (induction i)
  case 0
  show ?case by simp
next
  case (Suc i)
  have 1: "editDistance a b (Suc i) j \<le> Suc (editDistance a b i j)"
    by (rule editDistance_step_i)
  show ?case using Suc.IH 1 by (simp add: min_def)
qed

lemma editDistance_lip_i: "editDistance a b i j \<le> Suc (editDistance a b (Suc i) j)"
proof (induction j)
  case 0
  show ?case by simp
next
  case (Suc j)
  have 1: "editDistance a b i (Suc j) \<le> Suc (editDistance a b i j)"
    by (rule editDistance_step_j)
  show ?case using Suc.IH 1 by (simp add: min_def)
qed

lemma levCell_editDistance: "levCell str1 str2 i j = editDistance str2 str1 i j"
proof (induction str1 str2 i j rule: levCell.induct)
  case (3 str1 str2 i j)
  show ?case
  proof (cases "str2 ! i = str1 ! j")
    case True
    with 3 editDistance_lip_j [of str2 str1 i j] editDistance_lip_i [of str2 str1 i j]
    show ?thesis by (simp add: min_def)
  next
    case False
    with 3 show ?thesis by (simp add: min.commute min.left_commute min.assoc)
  qed
qed simp_all

lemma editDistance_sym: "editDistance a b i j = editDistance b a j i"
  by (induction a b i j rule: editDistance.induct)
     (auto simp: min.commute min.left_commute eq_commute [of "a ! _" "b ! _"])

lemma levenshteinDistance_spec:
  "levenshteinDistance str1 str2 = levenshtein_spec str1 str2"
  by (simp add: levenshteinDistance_levCell levCell_editDistance levenshtein_spec_def
      editDistance_sym [of str2 str1])

text \<open>
  Claim C9. The Levenshtein distance function is symmetric: for every pair of strings
  \<open>a\<close> and \<open>b\<close>, \<open>levenshteinDistance(a, b)\<close> equals \<open>levenshteinDistance(b, a)\<close>.
\<close>

theorem levenshteinDistance_symmetric:
  "levenshteinDistance a b = levenshteinDistance b a"
  by (simp add: levenshteinDistance_levCell levCell_sym [of a b])

text \<open>
  Claim C10. For every pair of strings, \<open>stringSimilarity\<close> returns a value in
  \<open>[0, 1]\<close>: the distance between the two strings is at least the difference of their
  lengths and at most the length of the longer one, so
  \<open>(longerLength - distance) / longerLength\<close> lies between 0 and 1, and two empty
  strings have similarity 1.
\<close>

theorem stringSimilarity_in_unit_interval:
  "0 \<le> stringSimilarity str1 str2 \<and> stringSimilarity str1 str2 \<le> 1
   \<and> stringSimilarity [] [] = 1
   \<and> max (length str1) (length str2) - min (length str1) (length str2)
       \<le> levenshteinDistance str1 str2
   \<and> levenshteinDistance str1 str2 \<le> max (length str1) (length str2)"
proof -
  have "stringSimilarity [] [] = 1" by (simp add: stringSimilarity_def)
  moreover have "max (length str1) (length str2) - min (length str1) (length str2)
       \<le> levenshteinDistance str1 str2"
    using levenshteinDistance_lower [of str1 str2] by (simp add: max_def min_def)
  ultimately show ?thesis
    using stringSimilarity_bounds [of str1 str2] levenshteinDistance_upper [of str1 str2]
    by blast
qed

section \<open>Fuzzy match\<close>

lemma fuzzyMatch_fold:
  "fold (\<lambda>keyword matches.
           if includes_str tx keyword then matches + 1
           else let similarity = stringSimilarity tx keyword
                in if similarity > 0.7 then matches + similarity else matches)
     kws acc
   = acc + (\<Sum>k\<leftarrow>kws. points tx k)"
  by (induction kws arbitrary: acc) (simp_all add: points_def Let_def)

lemma fuzzyMatch_sum:
  "fuzzyMatch tx kws =
     (if tx = [] \<or> kws = [] then 0
      else min ((\<Sum>k\<leftarrow>kws. points tx k) / real (length kws)) 1)"
  by (simp add: fuzzyMatch_def fuzzyMatch_fold Let_def)

lemma points_nonneg: "0 \<le> points tx keyword"
  using stringSimilarity_bounds [of tx keyword] by (simp add: points_def)

lemma fuzzyMatch_bounds: "0 \<le> fuzzyMatch tx kws \<and> fuzzyMatch tx kws \<le> 1"
proof -
  have "0 \<le> (\<Sum>k\<leftarrow>kws. points tx k)"
    by (rule sum_list_nonneg) (auto simp: points_nonneg)
  then show ?thesis by (simp add: fuzzyMatch_sum)
qed

lemma stringSimilarity_spec:
  assumes "tx \<noteq> []"
  shows "stringSimilarity tx keyword = similarity_spec tx keyword"
proof (cases "length tx > length keyword")
  case True
  with assms have "stringSimilarity tx keyword
      = (real (length tx) - real (levenshtein_spec tx keyword)) / real (length tx)"
    by (simp add: stringSimilarity_def Let_def levenshteinDistance_spec)
  also have "\<dots> = similarity_spec tx keyword"
    using True assms by (simp add: similarity_spec_def max_def diff_divide_distrib)
  finally show ?thesis .
next
  case False
  then have k: "keyword \<noteq> []" using assms by (cases keyword) auto
  have "levenshteinDistance keyword tx = levenshtein_spec tx keyword"
    using levenshteinDistance_spec [of tx keyword]
    by (simp add: levenshteinDistance_levCell levCell_sym [of keyword tx])
  with False k have "stringSimilarity tx keyword
      = (real (length keyword) - real (levenshtein_spec tx keyword)) / real (length keyword)"
    by (simp add: stringSimilarity_def Let_def)
  also have "\<dots> = similarity_spec tx keyword"
    using False k by (simp add: similarity_spec_def max_def diff_divide_distrib)
  finally show ?thesis .
qed

lemma points_spec_eq: "tx \<noteq> [] \<Longrightarrow> points tx keyword = points_spec tx keyword"
  by (simp add: points_def points_spec_def stringSimilarity_spec)

text \<open>
  Claim C5. For every text and keyword list, \<open>fuzzyMatch\<close> returns a value in
  \<open>[0, 1]\<close> computed as follows: each keyword gives 1 point if the text contains it
  verbatim, otherwise the normalized similarity (1 minus the Levenshtein distance
  divided by the length of the longer string) when that similarity exceeds 0.7; the
  points are summed, divided by the number of keywords and capped at 1; an empty
  keyword list or an empty text gives 0.
\<close>

theorem fuzzyMatch_refines_spec:
  "fuzzyMatch tx kws = fuzzyMatch_spec tx kws
   \<and> 0 \<le> fuzzyMatch tx kws \<and> fuzzyMatch tx kws \<le> 1
   \<and> fuzzyMatch tx [] = 0 \<and> fuzzyMatch [] kws = 0"
proof -
  have "fuzzyMatch tx kws = fuzzyMatch_spec tx kws"
  proof (cases "tx = []")
    case True
    then show ?thesis by (simp add: fuzzyMatch_sum fuzzyMatch_spec_def)
  next
    case False
    then have "points tx = points_spec tx"
      by (intro ext) (simp add: points_spec_eq)
    then show ?thesis by (simp add: fuzzyMatch_sum fuzzyMatch_spec_def)
  qed
  moreover have "fuzzyMatch tx [] = 0" "fuzzyMatch [] kws = 0"
    by (simp_all add: fuzzyMatch_def)
  ultimately show ?thesis using fuzzyMatch_bounds [of tx kws] by simp
qed

section \<open>Bounds of the relevance score\<close>

lemma exactMatching_mono: "score \<le> exactMatching p q oq score"
  by (simp add: exactMatching_def Let_def weights_exact_def)

lemma nameMatching_mono: "score \<le> nameMatching p t score"
  using fuzzyMatch_bounds by (simp add: nameMatching_def Let_def weights_name_def)

lemma roleMatching_mono: "score \<le> roleMatching p t score"
proof -
  have "0 \<le> fuzzyMatch x (keywordList t) * weights_role" for x
    using fuzzyMatch_bounds [of x "keywordList t"] by (simp add: weights_role_def)
  then have "score \<le> score + fuzzyMatch x (keywordList t) * weights_role" for x
    by simp
  moreover have "score \<le> score + fuzzyMatch x (keywordList t) * weights_role + weights_role * 0.5" for x
    using fuzzyMatch_bounds [of x "keywordList t"] by (simp add: weights_role_def)
  ultimately show ?thesis by (simp add: roleMatching_def Let_def)
qed

lemma companyMatching_mono: "score \<le> companyMatching p t score"
  using fuzzyMatch_bounds by (simp add: companyMatching_def Let_def weights_company_def)

lemma industryMatching_mono: "score \<le> industryMatching p t score"
  by (simp add: industryMatching_def weights_industry_def)

lemma expertiseMatching_mono: "score \<le> expertiseMatching p t score"
  using fuzzyMatch_bounds
  by (simp add: expertiseMatching_def Let_def weights_expertise_def split: option.split)

lemma locationMatching_mono: "score \<le> locationMatching p t score"
  by (simp add: locationMatching_def Let_def weights_location_def split: option.split)

lemma networkingMatching_mono: "score \<le> networkingMatching p t score"
  by (simp add: networkingMatching_def Let_def weights_networking_def)

text \<open>
  Claim C4. For every profile, search terms and raw query, the score returned by
  \<open>calculateRelevanceScore\<close> lies in the closed interval \<open>[0, 1]\<close>: every block adds
  a weight that is not negative, and the sum is capped at 1.
\<close>

theorem calculateRelevanceScore_in_unit_interval:
  "0 \<le> calculateRelevanceScore alumni searchTerms originalQuery
   \<and> calculateRelevanceScore alumni searchTerms originalQuery \<le> 1"
proof -
  let ?p = "personalOrEmpty (personal alumni)"
  let ?q = "professionalOrEmpty (professional alumni)"
  let ?n = "networkingOrEmpty (networking alumni)"
  let ?s1 = "exactMatching ?p ?q originalQuery 0"
  let ?s2 = "nameMatching ?p searchTerms ?s1"
  let ?s3 = "roleMatching ?q searchTerms ?s2"
  let ?s4 = "companyMatching ?q searchTerms ?s3"
  let ?s5 = "industryMatching ?q searchTerms ?s4"
  let ?s6 = "expertiseMatching ?q searchTerms ?s5"
  let ?s7 = "locationMatching ?p searchTerms ?s6"
  let ?s8 = "networkingMatching ?n searchTerms ?s7"
  have "0 \<le> ?s1" by (rule exactMatching_mono)
  also have "?s1 \<le> ?s2" by (rule nameMatching_mono)
  also have "?s2 \<le> ?s3" by (rule roleMatching_mono)
  also have "?s3 \<le> ?s4" by (rule companyMatching_mono)
  also have "?s4 \<le> ?s5" by (rule industryMatching_mono)
  also have "?s5 \<le> ?s6" by (rule expertiseMatching_mono)
  also have "?s6 \<le> ?s7" by (rule locationMatching_mono)
  also have "?s7 \<le> ?s8" by (rule networkingMatching_mono)
  finally have "0 \<le> ?s8" .
  then show ?thesis by (simp add: calculateRelevanceScore_def Let_def)
qed

section \<open>Local search: threshold and order\<close>

lemma searchRelevance_withRelevance [simp]:
  "searchRelevance (withRelevance a r q) = r"
  by (simp add: withRelevance_def alumni.defs scored.defs)

lemma insertSorted_byRelevance:
  "insertSorted byRelevance x ys = insort_key (\<lambda>r. - searchRelevance r) x ys"
  by (induction ys) (simp_all add: byRelevance_def)

lemma sortWith_byRelevance:
  "sortWith byRelevance xs = sort_key (\<lambda>r. - searchRelevance r) xs"
  by (induction xs) (simp_all add: sortWith_def insertSorted_byRelevance)

lemma collectResults_fold:
  "fold (\<lambda>alumni results.
           let relevanceScore = calculateRelevanceScore alumni searchTerms query
           in if relevanceScore > 0.1
              then results @ [withRelevance alumni relevanceScore query]
              else results)
     profiles acc
   = acc @ map (\<lambda>a. withRelevance a (calculateRelevanceScore a searchTerms query) query)
             (filter (\<lambda>a. calculateRelevanceScore a searchTerms query > 0.1) profiles)"
  by (induction profiles arbitrary: acc) (simp_all add: Let_def)

lemma collectResults_eq:
  "collectResults query searchTerms profiles
   = map (\<lambda>a. withRelevance a (calculateRelevanceScore a searchTerms query) query)
       (filter (\<lambda>a. calculateRelevanceScore a searchTerms query > 0.1) profiles)"
  unfolding collectResults_def collectResults_fold by simp

lemma performLocalSearch_eq:
  "performLocalSearch query profiles
   = sort_key (\<lambda>r. - searchRelevance r)
       (map (\<lambda>a. withRelevance a (calculateRelevanceScore a (extractSearchTerms query) query) query)
          (filter (\<lambda>a. calculateRelevanceScore a (extractSearchTerms query) query > 0.1)
             profiles))"
  by (simp add: performLocalSearch_def Let_def sortWith_byRelevance collectResults_eq)

lemma truncate_withRelevance:
  "alumni.truncate (withRelevance a r q) = a"
  by (simp add: withRelevance_def alumni.defs scored.defs)

lemma set_performLocalSearch:
  "set (performLocalSearch query profiles)
   = (\<lambda>a. withRelevance a (calculateRelevanceScore a (extractSearchTerms query) query) query)
       ` {a \<in> set profiles. calculateRelevanceScore a (extractSearchTerms query) query > 0.1}"
  by (simp add: performLocalSearch_eq)

text \<open>
  Claim C2. For every query and every profile list, every element of the list
  returned by the local search has a relevance score strictly greater than 0.1, and
  no profile scoring at or below 0.1 appears in the result: every result is a profile
  of the input list extended with the score \<open>calculateRelevanceScore\<close> gives it, that
  score is above 0.1, a profile of the input that scores 0.1 or less is the profile of
  no result, and the results are exactly the input profiles that score above 0.1.
\<close>

theorem performLocalSearch_above_threshold:
  "(\<forall>r \<in> set (performLocalSearch query profiles).
       searchRelevance r > 0.1
     \<and> alumni.truncate r \<in> set profiles
     \<and> searchRelevance r
         = calculateRelevanceScore (alumni.truncate r) (extractSearchTerms query) query
     \<and> r = withRelevance (alumni.truncate r) (searchRelevance r) query)
   \<and> (\<forall>a \<in> set profiles.
         calculateRelevanceScore a (extractSearchTerms query) query \<le> 0.1
         \<longrightarrow> a \<notin> alumni.truncate ` set (performLocalSearch query profiles))
   \<and> set (performLocalSearch query profiles)
       = (\<lambda>a. withRelevance a (calculateRelevanceScore a (extractSearchTerms query) query) query)
           ` {a \<in> set profiles. calculateRelevanceScore a (extractSearchTerms query) query > 0.1}"
proof -
  let ?c = "\<lambda>a. calculateRelevanceScore a (extractSearchTerms query) query"
  note S = set_performLocalSearch [of query profiles]
  have 1: "searchRelevance r > 0.1 \<and> alumni.truncate r \<in> set profiles
      \<and> searchRelevance r = ?c (alumni.truncate r)
      \<and> r = withRelevance (alumni.truncate r) (searchRelevance r) query"
    if "r \<in> set (performLocalSearch query profiles)" for r
  proof -
    from that obtain a where a: "a \<in> set profiles" "?c a > 0.1" "r = withRelevance a (?c a) query"
      unfolding S by blast
    then show ?thesis by (simp add: truncate_withRelevance)
  qed
  have 2: "a \<notin> alumni.truncate ` set (performLocalSearch query profiles)"
    if "?c a \<le> 0.1" for a
  proof
    assume "a \<in> alumni.truncate ` set (performLocalSearch query profiles)"
    then obtain r where r: "r \<in> set (performLocalSearch query profiles)" "a = alumni.truncate r"
      by blast
    from 1 [OF r(1)] r(2) have "?c a > 0.1" by simp
    with that show False by simp
  qed
  from 1 2 S show ?thesis by blast
qed

theorem performLocalSearch_above_threshold_witness:
  "withRelevance founderProfile 0.875 ''ceo'' \<in> set (performLocalSearch ''ceo'' [founderProfile])
   \<and> searchRelevance (withRelevance founderProfile 0.875 ''ceo'') > 0.1
   \<and> searchRelevance (withRelevance founderProfile 0.875 ''ceo'')
     = calculateRelevanceScore (alumni.truncate (withRelevance founderProfile 0.875 ''ceo''))
         (extractSearchTerms ''ceo'') ''ceo''
   \<and> emptyProfile \<in> set [emptyProfile, founderProfile]
   \<and> calculateRelevanceScore emptyProfile (extractSearchTerms ''ceo'') ''ceo'' \<le> 0.1
   \<and> emptyProfile \<notin> alumni.truncate ` set (performLocalSearch ''ceo'' [emptyProfile, founderProfile])"
proof -
  have m: "withRelevance founderProfile 0.875 ''ceo''
           \<in> set (performLocalSearch ''ceo'' [founderProfile])"
    by code_simp
  have r: "searchRelevance (withRelevance founderProfile 0.875 ''ceo'') > 0.1
     \<and> searchRelevance (withRelevance founderProfile 0.875 ''ceo'')
       = calculateRelevanceScore (alumni.truncate (withRelevance founderProfile 0.875 ''ceo''))
           (extractSearchTerms ''ceo'') ''ceo''"
    using bspec [OF conjunct1 [OF performLocalSearch_above_threshold [of "''ceo''" "[founderProfile]"]] m] by blast
  have e: "emptyProfile \<in> set [emptyProfile, founderProfile]" by simp
  have z: "calculateRelevanceScore emptyProfile (extractSearchTerms ''ceo'') ''ceo'' \<le> 0.1"
    by code_simp
  have n: "emptyProfile \<notin> alumni.truncate ` set (performLocalSearch ''ceo'' [emptyProfile, founderProfile])"
    using bspec [OF conjunct1 [OF conjunct2 [OF performLocalSearch_above_threshold [of "''ceo''" "[emptyProfile, founderProfile]"]]] e] z
    by (rule mp)
  from m r e z n show ?thesis by blast
qed

text \<open>
  Claim C3. For every query and profile list, the result of the local search is
  sorted non-increasingly by \<open>searchRelevance\<close>, and results of equal relevance keep
  the order their profiles had in the input list: for every value \<open>k\<close>, the results
  of relevance \<open>k\<close>, in order, are the input profiles that score \<open>k\<close>, in input order.
\<close>

theorem performLocalSearch_sorted_stable:
  "sorted_wrt (\<lambda>a b. searchRelevance a \<ge> searchRelevance b) (performLocalSearch query profiles)
   \<and> (\<forall>k. filter (\<lambda>r. searchRelevance r = k) (performLocalSearch query profiles)
          = map (\<lambda>a. withRelevance a k query)
              (filter (\<lambda>a. calculateRelevanceScore a (extractSearchTerms query) query = k
                         \<and> k > 0.1) profiles))"
proof -
  let ?f = "\<lambda>r::scored. - searchRelevance r"
  let ?c = "\<lambda>a. calculateRelevanceScore a (extractSearchTerms query) query"
  let ?xs = "map (\<lambda>a. withRelevance a (?c a) query) (filter (\<lambda>a. ?c a > 0.1) profiles)"
  have "sorted (map ?f (sort_key ?f ?xs))" by (rule sorted_sort_key)
  then have s: "sorted_wrt (\<lambda>a b. searchRelevance a \<ge> searchRelevance b)
      (performLocalSearch query profiles)"
    by (simp add: sorted_map performLocalSearch_eq)
  have "filter (\<lambda>r. searchRelevance r = k) (performLocalSearch query profiles)
        = map (\<lambda>a. withRelevance a k query) (filter (\<lambda>a. ?c a = k \<and> k > 0.1) profiles)" for k
  proof -
    have "filter (\<lambda>r. searchRelevance r = k) (sort_key ?f ?xs)
          = filter (\<lambda>r. ?f r = - k) (sort_key ?f ?xs)"
      by simp
    also have "\<dots> = filter (\<lambda>r. ?f r = - k) ?xs" by (rule sort_key_stable)
    also have "\<dots> = map (\<lambda>a. withRelevance a k query) (filter (\<lambda>a. ?c a = k \<and> k > 0.1) profiles)"
      by (induction profiles) auto
    finally show ?thesis by (simp add: performLocalSearch_eq)
  qed
  with s show ?thesis by blast
qed

section \<open>The role bonus\<close>

lemma matchedRoles_eq:
  "matchedRoles (extractSearchTerms query)
   = filter (\<lambda>role. includes_str (toLowerCase query) role)
       [''founder'', ''ceo'', ''manager'', ''director'', ''engineer'',
        ''consultant'', ''analyst'', ''designer'']"
  by (simp only: extractSearchTerms_def Let_def searchTerms.select_convs)

lemma matchedRoles_iff:
  "t \<in> set (matchedRoles (extractSearchTerms query))
   \<longleftrightarrow> t \<in> set [''founder'', ''ceo'', ''manager'', ''director'', ''engineer'',
                     ''consultant'', ''analyst'', ''designer'']
       \<and> includes_str (toLowerCase query) t"
  unfolding matchedRoles_eq by (simp only: set_filter mem_Collect_eq)

lemma includes_str_nonempty: "includes_str s t \<Longrightarrow> t \<noteq> [] \<Longrightarrow> s \<noteq> []"
  by (cases s) auto

text \<open>
  Claim C6. Whenever a role term of the fixed vocabulary (founder, ceo, manager,
  director, engineer, consultant, analyst, designer) that the query matches is a
  substring of the profile's lowercased role, 0.125 (half the role weight 0.25) is
  added on top of the contribution of the role's fuzzy match. In particular, for the
  query \<open>founder\<close> and the role \<open>Founder & CEO\<close> the fuzzy match is 1, so the full role
  weight and the bonus both apply; with the exact-substring weight the score is 0.875.
\<close>

theorem roleMatching_vocabulary_bonus:
  "(t \<in> set [''founder'', ''ceo'', ''manager'', ''director'', ''engineer'',
               ''consultant'', ''analyst'', ''designer'']
    \<and> includes_str (toLowerCase query) t
    \<and> current_role professional' = Some role0
    \<and> includes_str (toLowerCase role0) t
    \<longrightarrow> roleMatching professional' (extractSearchTerms query) score
        = score + fuzzyMatch (toLowerCase role0) (keywordList (extractSearchTerms query)) * 0.25
          + 0.125)
   \<and> fuzzyMatch (toLowerCase ''Founder & CEO'') (keywordList (extractSearchTerms ''founder'')) = 1
   \<and> roleMatching founderRole (extractSearchTerms ''founder'') score = score + 1 * 0.25 + 0.125
   \<and> calculateRelevanceScore founderProfile (extractSearchTerms ''founder'') ''founder'' = 0.875"
proof -
  have general: "roleMatching p (extractSearchTerms q) s
        = s + fuzzyMatch (toLowerCase r) (keywordList (extractSearchTerms q)) * 0.25 + 0.125"
    if v: "u \<in> set [''founder'', ''ceo'', ''manager'', ''director'', ''engineer'',
               ''consultant'', ''analyst'', ''designer'']"
      and m: "includes_str (toLowerCase q) u"
      and c: "current_role p = Some r"
      and i: "includes_str (toLowerCase r) u"
    for u q p r s
  proof -
    from v have "u \<noteq> []" by auto
    with i have "toLowerCase r \<noteq> []" by (rule includes_str_nonempty)
    then have tr: "truthy (current_role p)" by (auto simp: c truthy_def toLowerCase_def)
    from v m have "u \<in> set (matchedRoles (extractSearchTerms q))"
      by (simp only: matchedRoles_iff simp_thms)
    with i have ex: "list_ex (\<lambda>role. includes_str (toLowerCase (the (current_role p))) role)
        (matchedRoles (extractSearchTerms q))"
      unfolding list_ex_iff c by auto
    show ?thesis
      unfolding roleMatching_def using tr ex by (simp add: Let_def c weights_role_def)
  qed
  have f: "fuzzyMatch (toLowerCase ''Founder & CEO'') (keywordList (extractSearchTerms ''founder'')) = 1"
    by code_simp
  have v0: "''founder'' \<in> set [''founder'', ''ceo'', ''manager'', ''director'', ''engineer'',
               ''consultant'', ''analyst'', ''designer'']" by simp
  have m0: "includes_str (toLowerCase ''founder'') ''founder''" by code_simp
  have c0: "current_role founderRole = Some ''Founder & CEO''" by (simp add: founderRole_def)
  have i0: "includes_str (toLowerCase ''Founder & CEO'') ''founder''" by code_simp
  have r: "roleMatching founderRole (extractSearchTerms ''founder'') score = score + 1 * 0.25 + 0.125"
    using general [OF v0 m0 c0 i0, of score] by (simp only: f)
  have t: "calculateRelevanceScore founderProfile (extractSearchTerms ''founder'') ''founder'' = 0.875"
    by code_simp
  have g: "t \<in> set [''founder'', ''ceo'', ''manager'', ''director'', ''engineer'',
               ''consultant'', ''analyst'', ''designer'']
    \<and> includes_str (toLowerCase query) t
    \<and> current_role professional' = Some role0
    \<and> includes_str (toLowerCase role0) t
    \<longrightarrow> roleMatching professional' (extractSearchTerms query) score
        = score + fuzzyMatch (toLowerCase role0) (keywordList (extractSearchTerms query)) * 0.25
          + 0.125"
  proof (intro impI, elim conjE)
    assume "t \<in> set [''founder'', ''ceo'', ''manager'', ''director'', ''engineer'',
               ''consultant'', ''analyst'', ''designer'']"
      "includes_str (toLowerCase query) t" "current_role professional' = Some role0"
      "includes_str (toLowerCase role0) t"
    then show "roleMatching professional' (extractSearchTerms query) score
        = score + fuzzyMatch (toLowerCase role0) (keywordList (extractSearchTerms query)) * 0.25
          + 0.125"
      by (rule general)
  qed
  show ?thesis by (rule conjI [OF g conjI [OF f conjI [OF r t]]])
qed

theorem roleMatching_vocabulary_bonus_witness:
  "roleMatching founderRole (extractSearchTerms ''ceo'') 0.5
   = 0.5 + fuzzyMatch (toLowerCase ''Founder & CEO'') (keywordList (extractSearchTerms ''ceo'')) * 0.25
     + 0.125"
proof -
  have h: "''ceo'' \<in> set [''founder'', ''ceo'', ''manager'', ''director'', ''engineer'',
               ''consultant'', ''analyst'', ''designer'']
    \<and> includes_str (toLowerCase ''ceo'') ''ceo''
    \<and> current_role founderRole = Some ''Founder & CEO''
    \<and> includes_str (toLowerCase ''Founder & CEO'') ''ceo''"
    by code_simp
  from roleMatching_vocabulary_bonus [of "''ceo''" "''ceo''" founderRole "''Founder & CEO''" "0.5"]
  have "''ceo'' \<in> set [''founder'', ''ceo'', ''manager'', ''director'', ''engineer'',
               ''consultant'', ''analyst'', ''designer'']
    \<and> includes_str (toLowerCase ''ceo'') ''ceo''
    \<and> current_role founderRole = Some ''Founder & CEO''
    \<and> includes_str (toLowerCase ''Founder & CEO'') ''ceo''
    \<longrightarrow> roleMatching founderRole (extractSearchTerms ''ceo'') 0.5
   = 0.5 + fuzzyMatch (toLowerCase ''Founder & CEO'') (keywordList (extractSearchTerms ''ceo'')) * 0.25
     + 0.125"
    by (rule conjunct1)
  from this h show ?thesis by (rule mp)
qed

section \<open>Profiles without data\<close>

text \<open>
  The text searched for the exact query is built by a template literal, which prints
  an absent field as \<open>undefined\<close>. A profile without any group therefore scores 0.5
  for every query that occurs in the text of five \<open>undefined\<close>, and 0 for every other
  query.
\<close>

lemma absent_fullText:
  "toLowerCase
     (template (name \<lparr>name = None, location = None\<rparr>) @ '' ''
      @ template (current_role \<lparr>current_role = None, company = None, industry = None,
                                 expertise_tags = None\<rparr>) @ '' ''
      @ template (company \<lparr>current_role = None, company = None, industry = None,
                            expertise_tags = None\<rparr>) @ '' ''
      @ template (industry \<lparr>current_role = None, company = None, industry = None,
                             expertise_tags = None\<rparr>) @ '' ''
      @ template (case location \<lparr>name = None, location = None\<rparr> of
                    None \<Rightarrow> None | Some l \<Rightarrow> city l))
   = ''undefined undefined undefined undefined undefined''"
  by code_simp

lemma absent_groups_score:
  assumes "personal a = None" "professional a = None" "networking a = None"
  shows "calculateRelevanceScore a searchTerms originalQuery
         = (if includes_str ''undefined undefined undefined undefined undefined''
                 (toLowerCase originalQuery)
            then 0.5 else 0)"
proof -
  let ?p = "\<lparr>name = None, location = None\<rparr>"
  let ?q = "\<lparr>current_role = None, company = None, industry = None, expertise_tags = None\<rparr>"
  let ?n = "\<lparr>goals = None, offering = None\<rparr>"
  have g: "personalOrEmpty (personal a) = ?p" "professionalOrEmpty (professional a) = ?q"
    "networkingOrEmpty (networking a) = ?n"
    by (simp_all add: assms personalOrEmpty_def professionalOrEmpty_def networkingOrEmpty_def)
  have e: "exactMatching ?p ?q originalQuery 0
      = (if includes_str ''undefined undefined undefined undefined undefined''
                 (toLowerCase originalQuery) then 0.5 else 0)"
    unfolding exactMatching_def Let_def absent_fullText by (simp only: weights_exact_def add_0)
  have b: "nameMatching ?p searchTerms s = s" "roleMatching ?q searchTerms s = s"
    "companyMatching ?q searchTerms s = s" "industryMatching ?q searchTerms s = s"
    "expertiseMatching ?q searchTerms s = s" "locationMatching ?p searchTerms s = s"
    "networkingMatching ?n searchTerms s = s" for s
    by (simp_all add: nameMatching_def roleMatching_def companyMatching_def industryMatching_def
        expertiseMatching_def locationMatching_def networkingMatching_def truthy_def)
  have "calculateRelevanceScore a searchTerms originalQuery
        = min (exactMatching ?p ?q originalQuery 0) 1"
    unfolding calculateRelevanceScore_def Let_def g b ..
  also have "\<dots> = (if includes_str ''undefined undefined undefined undefined undefined''
                 (toLowerCase originalQuery) then 0.5 else 0)"
    unfolding e by (simp only: if_distrib [of "\<lambda>x. min x 1"])
  finally show ?thesis .
qed

text \<open>
  Claim C1. For every query and every profile whose optional groups are all absent,
  the score is 0 and the profile is not in the output of the search. The code breaks
  this at the query \<open>undefined\<close>: the profile without data scores 0.5 and is returned.
\<close>

theorem emptyProfile_found_by_undefined:
  "calculateRelevanceScore emptyProfile (extractSearchTerms ''undefined'') ''undefined'' = 0.5
   \<and> performLocalSearch ''undefined'' [emptyProfile]
       = [withRelevance emptyProfile 0.5 ''undefined'']"
  by code_simp

section \<open>The cache of \<open>performSearch\<close>\<close>

lemma toLowerCase_Nil_iff [simp]: "toLowerCase s = [] \<longleftrightarrow> s = []"
  by (simp add: toLowerCase_def)



lemma performSearch_blank:
  "trim q = [] \<Longrightarrow> performSearch ai q live s = clearSearch s"
  by (simp add: performSearch_def)

lemma performSearch_hit:
  "trim q \<noteq> [] \<Longrightarrow> map_has (searchCache s) (toLowerCase (trim q)) \<Longrightarrow>
   performSearch ai q live s
   = displaySearchResults (the (map_get (searchCache s) (toLowerCase (trim q)))) s"
  by (simp add: performSearch_def Let_def)

lemma performSearch_miss_cache:
  "trim q \<noteq> [] \<Longrightarrow> \<not> map_has (searchCache s) (toLowerCase (trim q)) \<Longrightarrow>
   searchCache (performSearch ai q live s)
   = searchCache (cacheSearchResults (toLowerCase (trim q)) (missResults ai q s) s)"
  by (simp add: performSearch_def Let_def missResults_def cacheSearchResults_def
      displaySearchResults_def addToSearchHistory_def split: list.split)

lemma performSearch_miss_shown:
  "trim q \<noteq> [] \<Longrightarrow> \<not> map_has (searchCache s) (toLowerCase (trim q)) \<Longrightarrow>
   filteredData (app (performSearch ai q live s)) = SearchResults (missResults ai q s)"
  by (simp add: performSearch_def Let_def missResults_def cacheSearchResults_def
      displaySearchResults_def addToSearchHistory_def split: list.split)

lemma performSearch_frame:
  "maxCacheSize (performSearch ai q live s) = maxCacheSize s
   \<and> useAI (performSearch ai q live s) = useAI s
   \<and> openAIApiKey (performSearch ai q live s) = openAIApiKey s
   \<and> alumniData (app (performSearch ai q live s)) = alumniData (app s)"
  by (simp add: performSearch_def Let_def cacheSearchResults_def clearSearch_def
      displaySearchResults_def addToSearchHistory_def split: list.split)

lemma displaySearchResults_shown:
  "filteredData (app (displaySearchResults r s)) = SearchResults r
   \<and> searchCache (displaySearchResults r s) = searchCache s"
  by (simp add: displaySearchResults_def)



section \<open>Size and eviction order of the cache\<close>

lemma in_set_tl: "x \<in> set (tl xs) \<Longrightarrow> x \<in> set xs"
  by (cases xs) auto

lemma map_has_keys: "map_has m k \<longleftrightarrow> k \<in> set (map fst m)"
  by (simp add: map_has_def map_of_eq_None_iff)

lemma cacheSearchResults_keys:
  assumes "distinct (map fst (searchCache s))" "k \<notin> set (map fst (searchCache s))"
  shows "map fst (searchCache (cacheSearchResults k r s))
         = (if maxCacheSize s \<le> length (searchCache s) then tl (map fst (searchCache s))
            else map fst (searchCache s)) @ [k]"
proof (cases "searchCache s")
  case Nil
  then show ?thesis
    by (simp add: cacheSearchResults_def Let_def map_size_def map_set_def)
next
  case (Cons p rest)
  obtain fk v where p: "p = (fk, v)" by (cases p)
  from assms Cons p have d: "fk \<notin> fst ` set rest" and k: "k \<notin> fst ` set rest" "k \<noteq> fk"
    by auto
  from d have del: "AList.delete fk rest = rest" by simp
  show ?thesis
    using k by (simp add: cacheSearchResults_def Let_def map_size_def map_set_def map_delete_def
        Cons p del AList.update_keys)
qed

lemma performSearch_miss_keys:
  assumes "trim q \<noteq> []" "distinct (map fst (searchCache s))"
    "toLowerCase (trim q) \<notin> set (map fst (searchCache s))"
  shows "map fst (searchCache (performSearch ai q live s))
         = (if maxCacheSize s \<le> length (searchCache s) then tl (map fst (searchCache s))
            else map fst (searchCache s)) @ [toLowerCase (trim q)]"
proof -
  from assms(3) have miss: "\<not> map_has (searchCache s) (toLowerCase (trim q))"
    by (simp only: map_has_keys not_False_eq_True)
  show ?thesis
    unfolding performSearch_miss_cache [OF assms(1) miss]
    by (rule cacheSearchResults_keys [OF assms(2,3)])
qed

lemma performSearch_cacheInv:
  assumes "cacheInv s"
  shows "cacheInv (performSearch ai q live s)"
proof (cases "trim q = []")
  case True
  with assms show ?thesis
    by (simp add: performSearch_blank cacheInv_def clearSearch_def)
next
  case False
  show ?thesis
  proof (cases "map_has (searchCache s) (toLowerCase (trim q))")
    case True
    with assms show ?thesis
      by (simp add: performSearch_hit [OF False True] cacheInv_def displaySearchResults_def)
  next
    case miss: False
    then have nk: "toLowerCase (trim q) \<notin> set (map fst (searchCache s))"
      by (simp only: map_has_keys not_False_eq_True)
    from assms have d: "distinct (map fst (searchCache s))" by (simp add: cacheInv_def)
    have keys: "map fst (searchCache (performSearch ai q live s))
         = (if maxCacheSize s \<le> length (searchCache s) then tl (map fst (searchCache s))
            else map fst (searchCache s)) @ [toLowerCase (trim q)]"
      by (rule performSearch_miss_keys [OF False d nk])
    have m: "maxCacheSize (performSearch ai q live s) = maxCacheSize s"
      by (simp add: performSearch_frame)
    have "distinct (map fst (searchCache (performSearch ai q live s)))"
      unfolding keys using d nk by (auto simp: distinct_tl dest: in_set_tl)
    moreover have "length (map fst (searchCache (performSearch ai q live s))) \<le> maxCacheSize s"
      unfolding keys using assms by (auto simp: cacheInv_def)
    ultimately show ?thesis using assms m by (simp add: cacheInv_def)
  qed
qed

lemma performSearches_snoc:
  "performSearches ai (calls @ [c]) s = performSearch ai (fst c) (snd c) (performSearches ai calls s)"
  by (simp add: performSearches_def split_def)

lemma performSearches_cacheInv:
  "cacheInv s \<Longrightarrow> cacheInv (performSearches ai calls s)"
  by (induction calls rule: rev_induct)
     (simp_all add: performSearches_snoc performSearch_cacheInv, simp add: performSearches_def)

lemma performSearches_frame:
  "maxCacheSize (performSearches ai calls s) = maxCacheSize s
   \<and> useAI (performSearches ai calls s) = useAI s
   \<and> alumniData (app (performSearches ai calls s)) = alumniData (app s)"
  by (induction calls rule: rev_induct)
     (simp_all add: performSearches_snoc performSearch_frame, simp add: performSearches_def)

lemma performSearches_keys:
  assumes "searchCache s = []" "0 < maxCacheSize s"
  shows "distinct (map (\<lambda>c. toLowerCase (trim (fst c))) calls) \<Longrightarrow>
         \<forall>c \<in> set calls. trim (fst c) \<noteq> [] \<Longrightarrow>
         map fst (searchCache (performSearches ai calls s))
         = drop (length calls - maxCacheSize s) (map (\<lambda>c. toLowerCase (trim (fst c))) calls)"
proof (induction calls rule: rev_induct)
  case Nil
  show ?case using assms by (simp add: performSearches_def)
next
  case (snoc c calls)
  let ?norm = "\<lambda>c::string \<times> bool. toLowerCase (trim (fst c))"
  let ?s = "performSearches ai calls s"
  let ?M = "maxCacheSize s"
  from snoc.prems have dist: "distinct (map ?norm calls)" and new: "?norm c \<notin> set (map ?norm calls)"
    and nb: "\<forall>c \<in> set calls. trim (fst c) \<noteq> []" and nbc: "trim (fst c) \<noteq> []"
    by auto
  have keys: "map fst (searchCache ?s) = drop (length calls - ?M) (map ?norm calls)"
    by (rule snoc.IH [OF dist nb])
  have d: "distinct (map fst (searchCache ?s))"
    unfolding keys using dist by (rule distinct_drop)
  have nk: "?norm c \<notin> set (map fst (searchCache ?s))"
    unfolding keys using new by (auto dest: in_set_dropD)
  have len: "length (searchCache ?s) = length calls - (length calls - ?M)"
    using arg_cong [OF keys, of length] by simp
  have M: "maxCacheSize ?s = ?M" by (simp add: performSearches_frame)
  have "map fst (searchCache (performSearch ai (fst c) (snd c) ?s))
        = (if ?M \<le> length (searchCache ?s) then tl (map fst (searchCache ?s))
            else map fst (searchCache ?s)) @ [?norm c]"
    using performSearch_miss_keys [OF nbc d nk, of ai "snd c"] by (simp only: M)
  also have "\<dots> = drop (length (calls @ [c]) - ?M) (map ?norm (calls @ [c]))"
  proof (cases "?M \<le> length calls")
    case True
    then have "?M \<le> length (searchCache ?s)" using len by simp
    moreover have "Suc (length calls) - ?M = Suc (length calls - ?M)" using True by simp
    ultimately show ?thesis using True assms(2)
      by (simp add: keys drop_Suc [symmetric] tl_drop drop_tl)
  next
    case False
    then have "\<not> ?M \<le> length (searchCache ?s)" using len by simp
    then show ?thesis using False by (simp add: keys)
  qed
  finally show ?case by (simp only: performSearches_snoc)
qed

lemma newSearchManager_cacheInv: "cacheInv (newSearchManager app0 savedHistory)"
  by (simp add: cacheInv_def newSearchManager_def)

lemma hd_not_in_drop:
  assumes "distinct xs" "0 < k"
  shows "hd xs \<notin> set (drop k xs)"
proof (cases xs)
  case Nil
  then show ?thesis by simp
next
  case (Cons x rest)
  from assms(2) obtain m where "k = Suc m" by (cases k) auto
  with Cons assms(1) show ?thesis by (auto dest: in_set_dropD)
qed

text \<open>
  Claim C8. After any sequence of searches on a new search manager the cache holds at
  most 100 entries. Eviction is first in, first out: after more than 100 searches with
  distinct normalized queries the cache holds the last 100 of them in the order of
  insertion, so the earliest is gone; a repeat of the earliest query is computed anew,
  shows the same list as the first time, and is inserted again at the end. A search
  answered from the cache leaves the cache as it is (the order is not refreshed).
\<close>

theorem searchCache_bounded_fifo:
  "(let final = performSearches ai calls (newSearchManager app0 savedHistory);
        norm = (\<lambda>c::string \<times> bool. toLowerCase (trim (fst c)))
    in map_size (searchCache final) \<le> 100
       \<and> (distinct (map norm calls) \<and> (\<forall>c \<in> set calls. trim (fst c) \<noteq> []) \<and> length calls > 100
            \<longrightarrow> map fst (searchCache final) = drop (length calls - 100) (map norm calls)
              \<and> \<not> map_has (searchCache final) (norm (hd calls))
              \<and> filteredData (app (performSearch ai (fst (hd calls)) live final))
                = SearchResults (performLocalSearch (fst (hd calls)) (alumniData app0))
              \<and> filteredData (app (performSearch ai (fst (hd calls)) (snd (hd calls))
                                     (newSearchManager app0 savedHistory)))
                = SearchResults (performLocalSearch (fst (hd calls)) (alumniData app0))
              \<and> map fst (searchCache (performSearch ai (fst (hd calls)) live final))
                = drop (length calls - 99) (map norm calls) @ [norm (hd calls)]))
   \<and> (trim query \<noteq> [] \<and> map_has (searchCache this) (toLowerCase (trim query))
        \<longrightarrow> searchCache (performSearch ai query live this) = searchCache this)"
proof -
  let ?init = "newSearchManager app0 savedHistory"
  let ?final = "performSearches ai calls ?init"
  let ?norm = "\<lambda>c::string \<times> bool. toLowerCase (trim (fst c))"
  have i0: "searchCache ?init = []" "maxCacheSize ?init = 100" "useAI ?init = False"
    "app ?init = app0"
    by (simp_all add: newSearchManager_def)
  have fr: "maxCacheSize ?final = 100" "useAI ?final = False"
    "alumniData (app ?final) = alumniData app0"
    by (simp_all add: performSearches_frame i0)
  have inv: "cacheInv ?final"
    by (rule performSearches_cacheInv [OF newSearchManager_cacheInv])
  then have bound: "map_size (searchCache ?final) \<le> 100"
    by (simp add: cacheInv_def map_size_def fr)
  have fifo: "map fst (searchCache ?final) = drop (length calls - 100) (map ?norm calls)
      \<and> \<not> map_has (searchCache ?final) (?norm (hd calls))
      \<and> filteredData (app (performSearch ai (fst (hd calls)) live ?final))
        = SearchResults (performLocalSearch (fst (hd calls)) (alumniData app0))
      \<and> filteredData (app (performSearch ai (fst (hd calls)) (snd (hd calls)) ?init))
        = SearchResults (performLocalSearch (fst (hd calls)) (alumniData app0))
      \<and> map fst (searchCache (performSearch ai (fst (hd calls)) live ?final))
        = drop (length calls - 99) (map ?norm calls) @ [?norm (hd calls)]"
    if dist: "distinct (map ?norm calls)" and nb: "\<forall>c \<in> set calls. trim (fst c) \<noteq> []"
      and n: "length calls > 100"
  proof -
    from n have ne: "calls \<noteq> []" by auto
    then have hdm: "hd calls \<in> set calls" by simp
    with nb have nb0: "trim (fst (hd calls)) \<noteq> []" by blast
    have keys: "map fst (searchCache ?final) = drop (length calls - 100) (map ?norm calls)"
      using performSearches_keys [of ?init calls ai, OF _ _ dist nb] by (simp add: i0)
    have "hd (map ?norm calls) \<notin> set (drop (length calls - 100) (map ?norm calls))"
      using dist n by (intro hd_not_in_drop) simp_all
    then have nk: "?norm (hd calls) \<notin> set (map fst (searchCache ?final))"
      using ne by (simp add: keys hd_map)
    then have miss: "\<not> map_has (searchCache ?final) (?norm (hd calls))"
      by (simp only: map_has_keys not_False_eq_True)
    have again: "filteredData (app (performSearch ai (fst (hd calls)) live ?final))
        = SearchResults (performLocalSearch (fst (hd calls)) (alumniData app0))"
      using performSearch_miss_shown [OF nb0 miss, of ai live]
      by (simp add: missResults_def fr)
    have miss0: "\<not> map_has (searchCache ?init) (?norm (hd calls))"
      by (simp add: i0 map_has_def)
    have first: "filteredData (app (performSearch ai (fst (hd calls)) (snd (hd calls)) ?init))
        = SearchResults (performLocalSearch (fst (hd calls)) (alumniData app0))"
      using performSearch_miss_shown [OF nb0 miss0, of ai "snd (hd calls)"]
      by (simp add: missResults_def i0)
    from inv have d: "distinct (map fst (searchCache ?final))" by (simp add: cacheInv_def)
    have len: "length (searchCache ?final) = 100"
      using arg_cong [OF keys, of length] n by simp
    have "Suc (length calls - 100) = length calls - 99" using n by simp
    then have "tl (drop (length calls - 100) (map ?norm calls))
        = drop (length calls - 99) (map ?norm calls)"
      by (simp add: tl_drop drop_Suc [symmetric] drop_tl del: drop_map)
    then have after: "map fst (searchCache (performSearch ai (fst (hd calls)) live ?final))
        = drop (length calls - 99) (map ?norm calls) @ [?norm (hd calls)]"
      using performSearch_miss_keys [OF nb0 d nk, of ai live]
      by (simp add: fr len keys del: drop_map)
    from keys miss again first after show ?thesis by blast
  qed
  have hit: "searchCache (performSearch ai query live this) = searchCache this"
    if "trim query \<noteq> []" "map_has (searchCache this) (toLowerCase (trim query))"
    using performSearch_hit [OF that, of ai live] by (simp add: displaySearchResults_shown)
  from bound fifo hit show ?thesis unfolding Let_def by blast
qed

lemma isWhiteSpace_a: "\<not> isWhiteSpace CHR ''a''"
  by code_simp

lemma lowerChar_a: "lowerChar CHR ''a'' = CHR ''a''"
  by code_simp

lemma normalize_replicate_a:
  "toLowerCase (trim (replicate n CHR ''a'')) = replicate n CHR ''a''"
proof -
  have "dropWhile isWhiteSpace (replicate n CHR ''a'') = replicate n CHR ''a''"
    by (cases n) (simp_all add: isWhiteSpace_a)
  then have "trim (replicate n CHR ''a'') = replicate n CHR ''a''"
    by (simp add: trim_def)
  then show ?thesis by (simp add: toLowerCase_def lowerChar_a)
qed

lemma manyQueries_norm:
  "map (\<lambda>c. toLowerCase (trim (fst c))) manyQueries = map (\<lambda>n. replicate n CHR ''a'') [1..<102]"
  by (simp add: manyQueries_def comp_def normalize_replicate_a del: upt.simps)

lemma manyQueries_distinct:
  "distinct (map (\<lambda>c. toLowerCase (trim (fst c))) manyQueries)"
proof -
  have "inj_on (\<lambda>n. replicate n CHR ''a'') (set [1..<102])"
    by (rule inj_onI) (drule arg_cong [where f = length], simp)
  then show ?thesis
    unfolding manyQueries_norm by (simp add: distinct_map del: upt.simps)
qed

lemma manyQueries_not_blank: "\<forall>c \<in> set manyQueries. trim (fst c) \<noteq> []"
proof
  fix c assume "c \<in> set manyQueries"
  then obtain n where n: "1 \<le> n" "c = (replicate n CHR ''a'', False)"
    by (auto simp: manyQueries_def simp del: upt.simps)
  have "toLowerCase (trim (replicate n CHR ''a'')) \<noteq> []"
    unfolding normalize_replicate_a using n(1) by simp
  then show "trim (fst c) \<noteq> []" by (simp add: n(2))
qed

lemma manyQueries_length: "length manyQueries > 100"
  by (simp add: manyQueries_def del: upt.simps)

theorem searchCache_bounded_fifo_witness:
  "length manyQueries > 100
   \<and> distinct (map (\<lambda>c. toLowerCase (trim (fst c))) manyQueries)
   \<and> \<not> map_has (searchCache (performSearches noAISearch manyQueries (newSearchManager exampleApp [])))
          (toLowerCase (trim (fst (hd manyQueries))))"
proof -
  note h = conjI [OF manyQueries_distinct conjI [OF manyQueries_not_blank manyQueries_length]]
  have "\<not> map_has (searchCache (performSearches noAISearch manyQueries (newSearchManager exampleApp [])))
          (toLowerCase (trim (fst (hd manyQueries))))"
    using searchCache_bounded_fifo [where ai = noAISearch and calls = manyQueries
        and ?app0.0 = exampleApp and savedHistory = "[]"] h
    unfolding Let_def by blast
  with manyQueries_distinct manyQueries_length show ?thesis by blast
qed

end
